theory Spec2Isabelle
  imports Complex_Main "HOL-Library.Product_Lexorder"
begin

section \<open>Leitner scheduler\<close>

text \<open>
  Timestamps. The source reads the clock with \<^verbatim>\<open>datetime.utcnow()\<close>, drops the
  microseconds and formats the result as an ISO string. A clock reading is modelled as
  the number of microseconds since the epoch, a stored timestamp as the number of whole
  seconds since the epoch (the ISO string of second precision denotes exactly that).
\<close>

type_synonym clock = int
type_synonym timestamp = int

definition usec_per_sec :: int where
  "usec_per_sec = 1000000"

definition sec_per_day :: int where
  "sec_per_day = 86400"

text \<open>\<^verbatim>\<open>LEITNER_INTERVALS_DAYS = {1: 0, 2: 1, 3: 3, 4: 7, 5: 14}\<close>\<close>

definition LEITNER_INTERVALS_DAYS :: "int \<rightharpoonup> int" where
  "LEITNER_INTERVALS_DAYS = [1 \<mapsto> 0, 2 \<mapsto> 1, 3 \<mapsto> 3, 4 \<mapsto> 7, 5 \<mapsto> 14]"

text \<open>\<^verbatim>\<open>now_utc_iso\<close>: the clock reading with the microseconds removed.\<close>

definition now_utc_iso :: "clock \<Rightarrow> timestamp" where
  "now_utc_iso clk = clk div usec_per_sec"

text \<open>\<^verbatim>\<open>add_days_iso\<close>: clock reading plus \<open>days\<close> days, then the microseconds removed.\<close>

definition add_days_iso :: "clock \<Rightarrow> int \<Rightarrow> timestamp" where
  "add_days_iso clk days = (clk + days * sec_per_day * usec_per_sec) div usec_per_sec"

text \<open>\<^verbatim>\<open>schedule_next\<close>: \<^verbatim>\<open>LEITNER_INTERVALS_DAYS.get(box, 0)\<close> days from now.\<close>

definition schedule_next :: "clock \<Rightarrow> int \<Rightarrow> timestamp" where
  "schedule_next clk bx =
     (let days = (case LEITNER_INTERVALS_DAYS bx of None \<Rightarrow> 0 | Some d \<Rightarrow> d)
      in add_days_iso clk days)"

text \<open>A row of the table \<^verbatim>\<open>words\<close>; the table is keyed by the row id.\<close>

type_synonym ustr = "nat list"

record word =
  german :: ustr
  example :: "ustr option"
  notes' :: "ustr option"
  box :: int
  correct_count :: int
  wrong_count :: int
  created_at :: timestamp
  updated_at :: timestamp
  last_seen_at :: "timestamp option"
  next_due_at :: timestamp

type_synonym words_table = "int \<rightharpoonup> word"

text \<open>
  \<^verbatim>\<open>update_after_answer\<close>. The source reads the clock twice: once for \<^verbatim>\<open>ts\<close> and
  once inside \<^verbatim>\<open>schedule_next\<close>; the two readings are the arguments \<open>clk_ts\<close> and
  \<open>clk_due\<close>. The SQL \<^verbatim>\<open>UPDATE ... WHERE id = ?\<close> changes the row when it exists and
  nothing otherwise. The result is the returned pair and the new table.
\<close>

definition update_after_answer ::
  "clock \<Rightarrow> clock \<Rightarrow> words_table \<Rightarrow> int \<Rightarrow> bool \<Rightarrow> int \<Rightarrow> (int \<times> timestamp) \<times> words_table" where
  "update_after_answer clk_ts clk_due db word_id was_correct current_box =
     (let new_box = (if was_correct then min 5 (current_box + 1) else 1);
          ts = now_utc_iso clk_ts;
          due = schedule_next clk_due new_box;
          db' = (case db word_id of
                   None \<Rightarrow> db
                 | Some w \<Rightarrow>
                     if was_correct
                     then db(word_id \<mapsto> w\<lparr>box := new_box, correct_count := correct_count w + 1,
                                            updated_at := ts, last_seen_at := Some ts,
                                            next_due_at := due\<rparr>)
                     else db(word_id \<mapsto> w\<lparr>box := new_box, wrong_count := wrong_count w + 1,
                                            updated_at := ts, last_seen_at := Some ts,
                                            next_due_at := due\<rparr>))
      in ((new_box, due), db'))"

section \<open>Similarity: \<^verbatim>\<open>difflib.SequenceMatcher(None, a, b).ratio()\<close>\<close>

text \<open>
  \<^verbatim>\<open>similarity\<close> calls the standard library's \<^verbatim>\<open>SequenceMatcher\<close> with
  \<^verbatim>\<open>isjunk = None\<close> and the default \<^verbatim>\<open>autojunk = True\<close>. The library's methods
  \<^verbatim>\<open>__chain_b\<close>, \<^verbatim>\<open>find_longest_match\<close>, \<^verbatim>\<open>get_matching_blocks\<close> and \<^verbatim>\<open>ratio\<close>
  are embedded as they are written in CPython's \<^verbatim>\<open>difflib.py\<close>. Sequences are lists
  over any element type; indices are natural numbers.
\<close>

type_synonym match = "nat \<times> nat \<times> nat"

text \<open>
  \<^verbatim>\<open>__chain_b\<close>. With \<^verbatim>\<open>isjunk = None\<close> the junk set stays empty. When \<open>b\<close> has at
  least 200 elements, the elements that occur more than \<open>n div 100 + 1\<close> times are
  "popular" and are deleted from the index \<^verbatim>\<open>b2j\<close>.
\<close>

definition bjunk :: "'a list \<Rightarrow> 'a set" where
  "bjunk b = {}"

definition bpopular :: "'a list \<Rightarrow> 'a set" where
  "bpopular b =
     (let n = length b
      in if 200 \<le> n then {elt \<in> set b. n div 100 + 1 < count_list b elt} else {})"

text \<open>
  \<^verbatim>\<open>b2j.get(elt, nothing)\<close>: the indices of \<open>elt\<close> in \<open>b\<close> in increasing order, and
  the empty list for an element that is absent from \<open>b\<close> or popular.
\<close>

definition b2j :: "'a list \<Rightarrow> 'a \<Rightarrow> nat list" where
  "b2j b elt =
     (if elt \<in> bpopular b then [] else filter (\<lambda>j. b ! j = elt) [0..<length b])"

text \<open>
  The inner loop of \<^verbatim>\<open>find_longest_match\<close> over the indices \<open>j\<close> of \<open>a[i]\<close> in \<open>b\<close>.
  The state is the best match so far and the dictionary \<^verbatim>\<open>newj2len\<close>. An index
  below \<open>blo\<close> is skipped (\<^verbatim>\<open>continue\<close>), an index at or above \<open>bhi\<close> ends the loop
  (\<^verbatim>\<open>break\<close>). \<^verbatim>\<open>j2len.get(j-1, 0)\<close> is 0 for \<open>j = 0\<close>, since \<open>-1\<close> is never a key.
\<close>

definition j2lenget :: "(nat \<rightharpoonup> nat) \<Rightarrow> nat \<Rightarrow> nat" where
  "j2lenget j2len j =
     (if j = 0 then 0 else case j2len (j - 1) of None \<Rightarrow> 0 | Some v \<Rightarrow> v)"

fun scan_row ::
  "nat \<Rightarrow> nat \<Rightarrow> nat \<Rightarrow> (nat \<rightharpoonup> nat) \<Rightarrow> nat list \<Rightarrow> match \<times> (nat \<rightharpoonup> nat)
     \<Rightarrow> match \<times> (nat \<rightharpoonup> nat)" where
  "scan_row blo bhi i j2len [] st = st"
| "scan_row blo bhi i j2len (j # js) (best, newj2len) =
     (if j < blo then scan_row blo bhi i j2len js (best, newj2len)
      else if bhi \<le> j then (best, newj2len)
      else
        let k = j2lenget j2len j + 1
        in scan_row blo bhi i j2len js
             (if snd (snd best) < k then (i + 1 - k, j + 1 - k, k) else best,
              newj2len(j \<mapsto> k)))"

text \<open>One iteration of the outer loop \<^verbatim>\<open>for i in range(alo, ahi)\<close>, and the whole loop.\<close>

definition flm_step ::
  "'a list \<Rightarrow> 'a list \<Rightarrow> nat \<Rightarrow> nat \<Rightarrow> nat \<Rightarrow> match \<times> (nat \<rightharpoonup> nat) \<Rightarrow> match \<times> (nat \<rightharpoonup> nat)" where
  "flm_step a b blo bhi i st =
     scan_row blo bhi i (snd st) (b2j b (a ! i)) (fst st, Map.empty)"

definition flm_scan :: "'a list \<Rightarrow> 'a list \<Rightarrow> nat \<Rightarrow> nat \<Rightarrow> nat \<Rightarrow> nat \<Rightarrow> match" where
  "flm_scan a b alo ahi blo bhi =
     fst (fold (flm_step a b blo bhi) [alo..<ahi] ((alo, blo, 0), Map.empty))"

text \<open>
  The four \<^verbatim>\<open>while\<close> loops that extend the best match: downwards and upwards, first
  over elements that are not junk (\<open>junk = False\<close>), then over junk (\<open>junk = True\<close>).
\<close>

function extend_down :: "bool \<Rightarrow> 'a list \<Rightarrow> 'a list \<Rightarrow> nat \<Rightarrow> nat \<Rightarrow> match \<Rightarrow> match" where
  "extend_down junk a b alo blo (besti, bestj, bestsize) =
     (if alo < besti \<and> blo < bestj \<and> (b ! (bestj - 1) \<in> bjunk b) = junk
         \<and> a ! (besti - 1) = b ! (bestj - 1)
      then extend_down junk a b alo blo (besti - 1, bestj - 1, bestsize + 1)
      else (besti, bestj, bestsize))"
  by pat_completeness auto
termination
  by (relation "measure (\<lambda>(junk, a, b, alo, blo, besti, bestj, bestsize). besti)") auto

declare extend_down.simps [simp del]

function extend_up :: "bool \<Rightarrow> 'a list \<Rightarrow> 'a list \<Rightarrow> nat \<Rightarrow> nat \<Rightarrow> match \<Rightarrow> match" where
  "extend_up junk a b ahi bhi (besti, bestj, bestsize) =
     (if besti + bestsize < ahi \<and> bestj + bestsize < bhi
         \<and> (b ! (bestj + bestsize) \<in> bjunk b) = junk
         \<and> a ! (besti + bestsize) = b ! (bestj + bestsize)
      then extend_up junk a b ahi bhi (besti, bestj, bestsize + 1)
      else (besti, bestj, bestsize))"
  by pat_completeness auto
termination
  by (relation "measure (\<lambda>(junk, a, b, ahi, bhi, besti, bestj, bestsize). ahi - (besti + bestsize))")
     auto

declare extend_up.simps [simp del]

definition find_longest_match :: "'a list \<Rightarrow> 'a list \<Rightarrow> nat \<Rightarrow> nat \<Rightarrow> nat \<Rightarrow> nat \<Rightarrow> match" where
  "find_longest_match a b alo ahi blo bhi =
     extend_up True a b ahi bhi
       (extend_down True a b alo blo
          (extend_up False a b ahi bhi
             (extend_down False a b alo blo
                (flm_scan a b alo ahi blo bhi))))"

subsection \<open>Bounds of the longest match\<close>

text \<open>
  The match that \<^verbatim>\<open>find_longest_match\<close> returns lies inside the two windows (or is the
  empty match at their lower ends). The queue loop of \<^verbatim>\<open>get_matching_blocks\<close>
  terminates because of these bounds.
\<close>

definition match_inv :: "nat \<Rightarrow> nat \<Rightarrow> nat \<Rightarrow> nat \<Rightarrow> match \<Rightarrow> bool" where
  "match_inv alo ahi blo bhi m =
     (case m of (bi, bj, bk) \<Rightarrow>
        alo \<le> bi \<and> blo \<le> bj \<and>
        (bi + bk \<le> ahi \<and> bj + bk \<le> bhi \<or> bi = alo \<and> bj = blo \<and> bk = 0))"

definition j2len_inv :: "nat \<Rightarrow> nat \<Rightarrow> nat \<Rightarrow> nat \<Rightarrow> (nat \<rightharpoonup> nat) \<Rightarrow> bool" where
  "j2len_inv alo blo bhi m d =
     (\<forall>j v. d j = Some v \<longrightarrow> blo \<le> j \<and> j < bhi \<and> 1 \<le> v \<and> v \<le> m - alo \<and> v \<le> j + 1 - blo)"

lemma j2lenget_bound:
  assumes "j2len_inv alo blo bhi i old" "blo \<le> j"
  shows "j2lenget old j \<le> i - alo \<and> j2lenget old j \<le> j - blo"
proof (cases "j = 0 \<or> old (j - 1) = None")
  case True
  then show ?thesis by (auto simp: j2lenget_def)
next
  case False
  then obtain v where v: "old (j - 1) = Some v" and j: "0 < j" by auto
  from assms(1) v have "blo \<le> j - 1 \<and> v \<le> i - alo \<and> v \<le> (j - 1) + 1 - blo"
    unfolding j2len_inv_def by blast
  then show ?thesis using v j by (simp add: j2lenget_def)
qed

lemma scan_row_inv:
  assumes "match_inv alo (Suc i) blo bhi best" "j2len_inv alo blo bhi (Suc i) new"
    "j2len_inv alo blo bhi i old" "alo \<le> i"
  shows "match_inv alo (Suc i) blo bhi (fst (scan_row blo bhi i old js (best, new)))
       \<and> j2len_inv alo blo bhi (Suc i) (snd (scan_row blo bhi i old js (best, new)))"
  using assms
proof (induction js arbitrary: best new)
  case Nil
  then show ?case by simp
next
  case (Cons j js)
  show ?case
  proof (cases "j < blo \<or> bhi \<le> j")
    case True
    then show ?thesis using Cons by auto
  next
    case False
    define k where "k = j2lenget old j + 1"
    have kb: "1 \<le> k \<and> k \<le> Suc i - alo \<and> k \<le> j + 1 - blo"
      using j2lenget_bound[OF Cons.prems(3), of j] Cons.prems(4) False unfolding k_def by auto
    have 1: "match_inv alo (Suc i) blo bhi (if snd (snd best) < k then (i + 1 - k, j + 1 - k, k) else best)"
      using Cons.prems(1,4) kb False by (auto simp: match_inv_def)
    have 2: "j2len_inv alo blo bhi (Suc i) (new(j \<mapsto> k))"
      using Cons.prems(2) kb False by (auto simp: j2len_inv_def)
    have step: "scan_row blo bhi i old (j # js) (best, new)
         = scan_row blo bhi i old js (if snd (snd best) < k then (i + 1 - k, j + 1 - k, k) else best, new(j \<mapsto> k))"
      using False by (simp add: k_def Let_def)
    show ?thesis unfolding step using Cons.IH[OF 1 2 Cons.prems(3,4)] .
  qed
qed

lemma flm_step_inv:
  assumes "match_inv alo i blo bhi (fst st)" "j2len_inv alo blo bhi i (snd st)" "alo \<le> i"
  shows "match_inv alo (Suc i) blo bhi (fst (flm_step a b blo bhi i st))
       \<and> j2len_inv alo blo bhi (Suc i) (snd (flm_step a b blo bhi i st))"
proof -
  have 1: "match_inv alo (Suc i) blo bhi (fst st)"
    using assms(1) by (auto simp: match_inv_def split: prod.splits)
  have 2: "j2len_inv alo blo bhi (Suc i) Map.empty" by (simp add: j2len_inv_def)
  show ?thesis unfolding flm_step_def by (rule scan_row_inv[OF 1 2 assms(2,3)])
qed

lemma flm_fold_inv:
  assumes "alo \<le> m"
  shows "match_inv alo m blo bhi (fst (fold (flm_step a b blo bhi) [alo..<m] ((alo, blo, 0), Map.empty)))
       \<and> j2len_inv alo blo bhi m (snd (fold (flm_step a b blo bhi) [alo..<m] ((alo, blo, 0), Map.empty)))"
  using assms
proof (induction m)
  case 0
  then show ?case by (simp add: match_inv_def j2len_inv_def)
next
  case (Suc m)
  show ?case
  proof (cases "alo = Suc m")
    case True
    then show ?thesis by (simp add: match_inv_def j2len_inv_def)
  next
    case False
    with Suc.prems have le: "alo \<le> m" by simp
    note IH = Suc.IH[OF le]
    have eq: "[alo..<Suc m] = [alo..<m] @ [m]" using le by simp
    show ?thesis unfolding eq
      using flm_step_inv[OF conjunct1[OF IH] conjunct2[OF IH] le, of a b] by simp
  qed
qed

lemma flm_scan_inv: "match_inv alo ahi blo bhi (flm_scan a b alo ahi blo bhi)"
proof (cases "alo \<le> ahi")
  case True
  then show ?thesis unfolding flm_scan_def using flm_fold_inv by blast
next
  case False
  then show ?thesis by (simp add: flm_scan_def match_inv_def)
qed

lemma extend_down_inv:
  "match_inv alo ahi blo bhi m \<Longrightarrow> match_inv alo ahi blo bhi (extend_down junk a b alo blo m)"
proof (induction junk a b alo blo m rule: extend_down.induct)
  case (1 junk a b alo blo besti bestj bestsize)
  show ?case
  proof (cases "alo < besti \<and> blo < bestj \<and> (b ! (bestj - 1) \<in> bjunk b) = junk
         \<and> a ! (besti - 1) = b ! (bestj - 1)")
    case True
    have inv: "match_inv alo ahi blo bhi (besti - 1, bestj - 1, bestsize + 1)"
      using "1.prems" True by (auto simp: match_inv_def)
    have unf: "extend_down junk a b alo blo (besti, bestj, bestsize)
             = extend_down junk a b alo blo (besti - 1, bestj - 1, bestsize + 1)"
      by (subst extend_down.simps) (rule if_P[OF True])
    show ?thesis unfolding unf by (rule "1.IH"[OF True inv])
  next
    case False
    have unf: "extend_down junk a b alo blo (besti, bestj, bestsize) = (besti, bestj, bestsize)"
      by (subst extend_down.simps) (rule if_not_P[OF False])
    show ?thesis unfolding unf by (rule "1.prems")
  qed
qed

lemma extend_up_inv:
  "match_inv alo ahi blo bhi m \<Longrightarrow> match_inv alo ahi blo bhi (extend_up junk a b ahi bhi m)"
proof (induction junk a b ahi bhi m rule: extend_up.induct)
  case (1 junk a b ahi bhi besti bestj bestsize)
  show ?case
  proof (cases "besti + bestsize < ahi \<and> bestj + bestsize < bhi
         \<and> (b ! (bestj + bestsize) \<in> bjunk b) = junk
         \<and> a ! (besti + bestsize) = b ! (bestj + bestsize)")
    case True
    have inv: "match_inv alo ahi blo bhi (besti, bestj, bestsize + 1)"
      using "1.prems" True by (auto simp: match_inv_def)
    have unf: "extend_up junk a b ahi bhi (besti, bestj, bestsize)
             = extend_up junk a b ahi bhi (besti, bestj, bestsize + 1)"
      by (subst extend_up.simps) (rule if_P[OF True])
    show ?thesis unfolding unf by (rule "1.IH"[OF True inv])
  next
    case False
    have unf: "extend_up junk a b ahi bhi (besti, bestj, bestsize) = (besti, bestj, bestsize)"
      by (subst extend_up.simps) (rule if_not_P[OF False])
    show ?thesis unfolding unf by (rule "1.prems")
  qed
qed

lemma find_longest_match_inv:
  "match_inv alo ahi blo bhi (find_longest_match a b alo ahi blo bhi)"
  unfolding find_longest_match_def
  by (intro extend_up_inv extend_down_inv flm_scan_inv)

lemma find_longest_match_bounds:
  assumes "find_longest_match a b alo ahi blo bhi = (i, j, k)" "k \<noteq> 0"
  shows "alo \<le> i \<and> i + k \<le> ahi \<and> blo \<le> j \<and> j + k \<le> bhi"
  using find_longest_match_inv[of alo ahi blo bhi a b] assms by (auto simp: match_inv_def)

subsection \<open>Matching blocks and the ratio\<close>

text \<open>
  The \<^verbatim>\<open>while queue\<close> loop of \<^verbatim>\<open>get_matching_blocks\<close>. The Python list \<^verbatim>\<open>queue\<close> is
  used as a stack (\<^verbatim>\<open>pop()\<close> takes its last element, \<^verbatim>\<open>append\<close> adds at the end);
  the head of the modelled list is the last element of the Python list.
\<close>

function gmb_loop ::
  "'a list \<Rightarrow> 'a list \<Rightarrow> (nat \<times> nat \<times> nat \<times> nat) list \<Rightarrow> match list \<Rightarrow> match list" where
  "gmb_loop a b [] matching_blocks = matching_blocks"
| "gmb_loop a b ((alo, ahi, blo, bhi) # queue) matching_blocks =
     (case find_longest_match a b alo ahi blo bhi of
        (i, j, k) \<Rightarrow>
          if k \<noteq> 0
          then gmb_loop a b
                 ((if i + k < ahi \<and> j + k < bhi then [(i + k, ahi, j + k, bhi)] else [])
                  @ (if alo < i \<and> blo < j then [(alo, i, blo, j)] else [])
                  @ queue)
                 (matching_blocks @ [(i, j, k)])
          else gmb_loop a b queue matching_blocks)"
  by pat_completeness auto
termination
proof (relation "measure (\<lambda>(a, b, queue, blocks).
                    sum_list (map (\<lambda>(alo, ahi, blo, bhi). 2 * (ahi - alo) + 1) queue))",
       goal_cases)
  case 1
  show ?case by simp
next
  case (2 a b alo ahi blo bhi queue matching_blocks i y j k)
  then have "find_longest_match a b alo ahi blo bhi = (i, j, k)" by simp
  from find_longest_match_bounds[OF this \<open>k \<noteq> 0\<close>]
  have b: "alo \<le> i" "i + k \<le> ahi" by simp_all
  have k: "0 < k" using \<open>k \<noteq> 0\<close> by simp
  have r: "2 * (ahi - (i + k)) + 1 < 2 * (ahi - alo) + 1" using b k by arith
  have l: "2 * (i - alo) + 1 < 2 * (ahi - alo) + 1" using b k by arith
  have lr: "(2 * (ahi - (i + k)) + 1) + (2 * (i - alo) + 1) < 2 * (ahi - alo) + 1"
    using b k by arith
  show ?case
  proof (cases "i + k < ahi \<and> j + k < bhi")
    case R: True
    show ?thesis
    proof (cases "alo < i \<and> blo < j")
      case True
      show ?thesis using lr by (simp add: R True)
    next
      case False
      show ?thesis using r by (simp add: R False)
    qed
  next
    case R: False
    show ?thesis
    proof (cases "alo < i \<and> blo < j")
      case True
      show ?thesis using l by (simp add: R True)
    next
      case False
      show ?thesis by (simp add: R False)
    qed
  qed
next
  case (3 a b alo ahi blo bhi queue matching_blocks i y j k)
  show ?case by simp
qed

declare gmb_loop.simps [simp del]

text \<open>
  The loop that joins adjacent blocks. The state is the pending block \<open>(i1, j1, k1)\<close>
  and the list \<^verbatim>\<open>non_adjacent\<close>.
\<close>

fun join_adjacent :: "match \<Rightarrow> match list \<Rightarrow> match list \<Rightarrow> match \<times> match list" where
  "join_adjacent (i1, j1, k1) non_adjacent [] = ((i1, j1, k1), non_adjacent)"
| "join_adjacent (i1, j1, k1) non_adjacent ((i2, j2, k2) # rest) =
     (if i1 + k1 = i2 \<and> j1 + k1 = j2
      then join_adjacent (i1, j1, k1 + k2) non_adjacent rest
      else join_adjacent (i2, j2, k2)
             (if k1 \<noteq> 0 then non_adjacent @ [(i1, j1, k1)] else non_adjacent) rest)"

text \<open>
  \<^verbatim>\<open>get_matching_blocks\<close>: run the queue from the whole of both sequences, sort the
  blocks (tuples are ordered lexicographically), join adjacent blocks, and append the
  sentinel \<open>(la, lb, 0)\<close>.
\<close>

definition get_matching_blocks :: "'a list \<Rightarrow> 'a list \<Rightarrow> match list" where
  "get_matching_blocks a b =
     (let la = length a;
          lb = length b;
          matching_blocks = sort (gmb_loop a b [(0, la, 0, lb)] [])
      in case join_adjacent (0, 0, 0) [] matching_blocks of
           ((i1, j1, k1), non_adjacent) \<Rightarrow>
             (if k1 \<noteq> 0 then non_adjacent @ [(i1, j1, k1)] else non_adjacent) @ [(la, lb, 0)])"

text \<open>
  \<^verbatim>\<open>_calculate_ratio\<close> and \<^verbatim>\<open>ratio\<close>. The Python value is the float
  \<^verbatim>\<open>2.0 * matches / length\<close>; the model keeps the exact quotient as a rational number.
  The only float operation the program applies to it is the comparison with the literal
  \<^verbatim>\<open>0.88\<close>. Floating-point division rounds to the nearest double, which is monotone,
  and a quotient \<open>2 * matches / length\<close> different from \<open>22 / 25\<close> is at least
  \<open>1 / (25 * length)\<close> away from it, so for every length below \<open>2 ^ 50\<close> the
  comparison of the doubles agrees with the comparison of the exact values.
\<close>

definition calculate_ratio :: "nat \<Rightarrow> nat \<Rightarrow> rat" where
  "calculate_ratio matches len =
     (if len \<noteq> 0 then 2 * of_nat matches / of_nat len else 1)"

definition ratio :: "'a list \<Rightarrow> 'a list \<Rightarrow> rat" where
  "ratio a b =
     (let matches = sum_list (map (\<lambda>(i, j, k). k) (get_matching_blocks a b))
      in calculate_ratio matches (length a + length b))"

text \<open>\<^verbatim>\<open>similarity\<close> of the program.\<close>

definition similarity :: "'a list \<Rightarrow> 'a list \<Rightarrow> rat" where
  "similarity a b = ratio a b"

text \<open>\<^verbatim>\<open>FUZZY_THRESHOLD = 0.88\<close>\<close>

definition FUZZY_THRESHOLD :: rat where
  "FUZZY_THRESHOLD = 88 / 100"

section \<open>Text: Python strings, normalisation, grading of one candidate\<close>

text \<open>
  A Python \<^verbatim>\<open>str\<close> is a sequence of Unicode code points; it is modelled as a list of
  natural numbers (\<open>ustr\<close>). \<open>ustr_of\<close> reads an ASCII literal as such a string.
\<close>

definition ustr_of :: "string \<Rightarrow> ustr" where
  "ustr_of s = map of_char s"

text \<open>
  Whitespace as \<^verbatim>\<open>str.strip()\<close> and the regular expression class \<^verbatim>\<open>\s\<close> see it
  (both test CPython's \<^verbatim>\<open>Py_UNICODE_ISSPACE\<close>): U+0009..U+000D, U+001C..U+0020,
  U+0085, U+00A0, U+1680, U+2000..U+200A, U+2028, U+2029, U+202F, U+205F, U+3000.
\<close>

definition isspace :: "nat \<Rightarrow> bool" where
  "isspace c =
     ((0x9 \<le> c \<and> c \<le> 0xD) \<or> (0x1C \<le> c \<and> c \<le> 0x20) \<or> c = 0x85 \<or> c = 0xA0
      \<or> c = 0x1680 \<or> (0x2000 \<le> c \<and> c \<le> 0x200A) \<or> c = 0x2028 \<or> c = 0x2029
      \<or> c = 0x202F \<or> c = 0x205F \<or> c = 0x3000)"

text \<open>\<^verbatim>\<open>s.strip()\<close>: whitespace removed at both ends.\<close>

definition strip :: "ustr \<Rightarrow> ustr" where
  "strip s = rev (dropWhile isspace (rev (dropWhile isspace s)))"

text \<open>
  \<^verbatim>\<open>s.lower()\<close>. CPython lowers a string code point by code point. An ASCII code
  point is lowered by the ASCII rule. For the others the lower-case mapping of the
  Unicode character database (\<^verbatim>\<open>_PyUnicode_ToLowerFull\<close>, one to three code points) is
  used; the database is not part of the program, and its tables are the parameter \<open>U\<close>
  of the model: the mapping and the properties "cased" and "case-ignorable". The capital
  sigma U+03A3 is special: it becomes the final sigma U+03C2 when a cased letter
  precedes it and none follows it (case-ignorable code points skipped), and U+03C3
  otherwise.
\<close>

record ucd =
  tolower_full :: "nat \<Rightarrow> nat list"
  is_cased :: "nat \<Rightarrow> bool"
  is_case_ignorable :: "nat \<Rightarrow> bool"

definition ascii_lower :: "nat \<Rightarrow> nat" where
  "ascii_lower c = (if 0x41 \<le> c \<and> c \<le> 0x5A then c + 0x20 else c)"

definition to_lower_full :: "ucd \<Rightarrow> nat \<Rightarrow> nat list" where
  "to_lower_full U c = (if c < 0x80 then [ascii_lower c] else tolower_full U c)"

definition handle_capital_sigma :: "ucd \<Rightarrow> ustr \<Rightarrow> nat \<Rightarrow> nat" where
  "handle_capital_sigma U s i =
     (let preceding = dropWhile (is_case_ignorable U) (rev (take i s));
          following = dropWhile (is_case_ignorable U) (drop (i + 1) s);
          final_sigma = (preceding \<noteq> [] \<and> is_cased U (hd preceding))
                        \<and> (following = [] \<or> \<not> is_cased U (hd following))
      in if final_sigma then 0x3C2 else 0x3C3)"

definition lower_ucs4 :: "ucd \<Rightarrow> ustr \<Rightarrow> nat \<Rightarrow> nat list" where
  "lower_ucs4 U s i =
     (if s ! i = 0x3A3 then [handle_capital_sigma U s i] else to_lower_full U (s ! i))"

definition lower :: "ucd \<Rightarrow> ustr \<Rightarrow> ustr" where
  "lower U s = concat (map (lower_ucs4 U s) [0..<length s])"

text \<open>\<^verbatim>\<open>re.sub(r"\s+", " ", s)\<close>: every maximal run of whitespace becomes one space.\<close>

function collapse_ws :: "ustr \<Rightarrow> ustr" where
  "collapse_ws [] = []"
| "collapse_ws (c # cs) =
     (if isspace c then 0x20 # collapse_ws (dropWhile isspace cs) else c # collapse_ws cs)"
  by pat_completeness auto
termination
  by (relation "measure length") (auto simp: length_dropWhile_le less_Suc_eq_le)

text \<open>\<^verbatim>\<open>s.replace(old, new)\<close> for a pattern \<open>old\<close> of one code point.\<close>

definition replace1 :: "nat \<Rightarrow> ustr \<Rightarrow> ustr \<Rightarrow> ustr" where
  "replace1 old new s = concat (map (\<lambda>c. if c = old then new else [c]) s)"

text \<open>
  \<^verbatim>\<open>de_normalize\<close> and \<^verbatim>\<open>tr_normalize\<close>. The four patterns of \<^verbatim>\<open>de_normalize\<close> are the
  code points U+00DF, U+00E4, U+00F6 and U+00FC.
\<close>

definition de_normalize :: "ucd \<Rightarrow> ustr \<Rightarrow> ustr" where
  "de_normalize U s =
     (let s = lower U (strip s);
          s = collapse_ws s;
          s = replace1 0xFC (ustr_of ''ue'')
                (replace1 0xF6 (ustr_of ''oe'')
                   (replace1 0xE4 (ustr_of ''ae'')
                      (replace1 0xDF (ustr_of ''ss'') s)))
      in s)"

definition tr_normalize :: "ucd \<Rightarrow> ustr \<Rightarrow> ustr" where
  "tr_normalize U s =
     (let s = lower U (strip s);
          s = collapse_ws s
      in s)"

text \<open>
  The normaliser chosen by the language, as \<^verbatim>\<open>is_close_enough\<close> and \<^verbatim>\<open>play_question\<close>
  choose it: \<^verbatim>\<open>"de"\<close> selects \<^verbatim>\<open>de_normalize\<close>, anything else \<^verbatim>\<open>tr_normalize\<close>.
\<close>

definition normalize :: "ucd \<Rightarrow> string \<Rightarrow> ustr \<Rightarrow> ustr" where
  "normalize U lang s = (if lang = ''de'' then de_normalize U s else tr_normalize U s)"

text \<open>\<^verbatim>\<open>is_close_enough\<close>. An empty string is false in Python.\<close>

definition is_close_enough :: "ucd \<Rightarrow> ustr \<Rightarrow> ustr \<Rightarrow> string \<Rightarrow> bool \<times> rat" where
  "is_close_enough U user correct lang =
     (let (u, c) = (if lang = ''de'' then (de_normalize U user, de_normalize U correct)
                    else (tr_normalize U user, tr_normalize U correct))
      in if u = [] \<or> c = [] then (False, 0)
         else if u = c then (True, 1)
         else if length u \<le> 3 \<or> length c \<le> 3 then (False, similarity u c)
         else let sim = similarity u c in (FUZZY_THRESHOLD \<le> sim, sim))"

text \<open>
  An excerpt of the Unicode character database, used to run the model on concrete
  strings: the lower-case mappings of the Latin-1 letters, of the Turkish capitals
  U+011E and U+015E, of the dotted capital I (U+0130, which lowers to two code points)
  and of the capital sharp s (U+1E9E);
  every other code point above ASCII lowers to itself. Cased: the ASCII and Latin-1
  letters. Case-ignorable: apostrophe, full stop, colon, circumflex, grave accent.
\<close>

definition ucd_excerpt :: ucd where
  "ucd_excerpt =
     \<lparr>tolower_full = (\<lambda>c. if 0xC0 \<le> c \<and> c \<le> 0xDE \<and> c \<noteq> 0xD7 then [c + 0x20]
                          else if c = 0x11E \<or> c = 0x15E then [c + 1]
                          else if c = 0x130 then [0x69, 0x307]
                          else if c = 0x1E9E then [0xDF]
                          else [c]),
      is_cased = (\<lambda>c. (0x41 \<le> c \<and> c \<le> 0x5A) \<or> (0x61 \<le> c \<and> c \<le> 0x7A)
                       \<or> (0xC0 \<le> c \<and> c \<le> 0xFF \<and> c \<noteq> 0xD7 \<and> c \<noteq> 0xF7)),
      is_case_ignorable = (\<lambda>c. c = 0x27 \<or> c = 0x2E \<or> c = 0x3A \<or> c = 0x5E \<or> c = 0x60)\<rparr>"

section \<open>Parsing and storing translations\<close>

text \<open>
  \<^verbatim>\<open>re.split(r"[;,/]+", raw)\<close>: the pieces of \<open>raw\<close> between the maximal runs of the
  separators \<^verbatim>\<open>;\<close> \<^verbatim>\<open>,\<close> \<^verbatim>\<open>/\<close>. The first argument of \<open>re_split_from\<close> is the
  piece read so far. The result always has at least one piece; a separator at either
  end of the input gives an empty piece there.
\<close>

definition is_sep :: "nat \<Rightarrow> bool" where
  "is_sep c = (c = 0x3B \<or> c = 0x2C \<or> c = 0x2F)"

function re_split_from :: "ustr \<Rightarrow> ustr \<Rightarrow> ustr list" where
  "re_split_from piece [] = [piece]"
| "re_split_from piece (c # cs) =
     (if is_sep c then piece # re_split_from [] (dropWhile is_sep cs)
      else re_split_from (piece @ [c]) cs)"
  by pat_completeness auto
termination
  by (relation "measure (\<lambda>(piece, s). length s)")
     (auto simp: length_dropWhile_le less_Suc_eq_le)

definition re_split :: "ustr \<Rightarrow> ustr list" where
  "re_split raw = re_split_from [] raw"

text \<open>
  The second loop of \<^verbatim>\<open>parse_translations\<close>: \<open>seen\<close> is the set of keys met so far,
  \<open>uniq\<close> the list built so far.
\<close>

fun uniq_loop :: "ucd \<Rightarrow> ustr list \<Rightarrow> ustr set \<Rightarrow> ustr list \<Rightarrow> ustr list" where
  "uniq_loop U [] seen uniq = uniq"
| "uniq_loop U (t # ts) seen uniq =
     (let key = tr_normalize U t
      in if key \<notin> seen then uniq_loop U ts (insert key seen) (uniq @ [t])
         else uniq_loop U ts seen uniq)"

text \<open>\<^verbatim>\<open>parse_translations\<close>. The first loop keeps the stripped parts that are not empty.\<close>

definition parse_translations :: "ucd \<Rightarrow> ustr \<Rightarrow> ustr list" where
  "parse_translations U raw =
     (let parts = re_split raw;
          out = filter (\<lambda>p. p \<noteq> []) (map strip parts)
      in uniq_loop U out {} [])"

text \<open>
  The database. A row of the table \<^verbatim>\<open>translations\<close>; the table is the list of its rows
  in the order of their ids. \<open>tr_seq\<close> is the largest id given so far
  (\<^verbatim>\<open>AUTOINCREMENT\<close>).
\<close>

record translation =
  tr_id :: int
  tr_word_id :: int
  turkish :: ustr
  tr_created_at :: timestamp

record database =
  word_rows :: words_table
  tr_rows :: "translation list"
  tr_seq :: int

datatype sql_error = IntegrityError

text \<open>
  \<^verbatim>\<open>INSERT INTO translations (word_id, turkish, created_at) VALUES (?, ?, ?)\<close>. The insert
  fails with \<^verbatim>\<open>IntegrityError\<close> when the word does not exist (foreign key, enforced by
  \<^verbatim>\<open>PRAGMA foreign_keys = ON\<close>) or when the table already has a row with the same word
  and the same text (unique index \<^verbatim>\<open>uniq_word_tr\<close> on \<^verbatim>\<open>(word_id, turkish)\<close>, which
  compares the text as it is stored).
\<close>

definition insert_translation ::
  "database \<Rightarrow> int \<Rightarrow> ustr \<Rightarrow> timestamp \<Rightarrow> sql_error + database" where
  "insert_translation db word_id t ts =
     (if word_rows db word_id = None
         \<or> (\<exists>r \<in> set (tr_rows db). tr_word_id r = word_id \<and> turkish r = t)
      then Inl IntegrityError
      else Inr (db\<lparr>tr_rows := tr_rows db
                        @ [\<lparr>tr_id = tr_seq db + 1, tr_word_id = word_id, turkish = t,
                            tr_created_at = ts\<rparr>],
                     tr_seq := tr_seq db + 1\<rparr>))"

text \<open>
  \<^verbatim>\<open>add_translation\<close>: every parsed translation is inserted, and an \<^verbatim>\<open>IntegrityError\<close>
  is caught and ignored (\<^verbatim>\<open>except sqlite3.IntegrityError: pass\<close>).
\<close>

fun insert_all :: "database \<Rightarrow> int \<Rightarrow> timestamp \<Rightarrow> ustr list \<Rightarrow> database" where
  "insert_all db word_id ts [] = db"
| "insert_all db word_id ts (t # trs) =
     (case insert_translation db word_id t ts of
        Inl IntegrityError \<Rightarrow> insert_all db word_id ts trs
      | Inr db' \<Rightarrow> insert_all db' word_id ts trs)"

definition add_translation :: "ucd \<Rightarrow> clock \<Rightarrow> database \<Rightarrow> int \<Rightarrow> ustr \<Rightarrow> database" where
  "add_translation U clk db word_id turkish_raw =
     (let trs = parse_translations U turkish_raw
      in if trs = [] then db
         else insert_all db word_id (now_utc_iso clk) trs)"

text \<open>\<^verbatim>\<open>get_translations\<close>: the texts of the rows of a word, in the order of their ids.\<close>

definition get_translations :: "database \<Rightarrow> int \<Rightarrow> ustr list" where
  "get_translations db word_id =
     map turkish (filter (\<lambda>r. tr_word_id r = word_id) (tr_rows db))"

text \<open>
  The parsing as the description words it, to compare with the code: split at every
  separator, trim each part, drop the empty parts, and remove every part whose key
  (the case- and whitespace-insensitive normal form) occurred before, keeping the
  first occurrence and the order.
\<close>

fun split_each :: "ustr \<Rightarrow> ustr \<Rightarrow> ustr list" where
  "split_each piece [] = [piece]"
| "split_each piece (c # cs) =
     (if is_sep c then piece # split_each [] cs else split_each (piece @ [c]) cs)"

function dedup_first :: "('a \<Rightarrow> 'k) \<Rightarrow> 'a list \<Rightarrow> 'a list" where
  "dedup_first key [] = []"
| "dedup_first key (x # xs) = x # dedup_first key (filter (\<lambda>y. key y \<noteq> key x) xs)"
  by pat_completeness auto
termination
  by (relation "measure (\<lambda>(key, xs). length xs)") (auto simp: less_Suc_eq_le)

definition spec_parse :: "ucd \<Rightarrow> ustr \<Rightarrow> ustr list" where
  "spec_parse U raw =
     dedup_first (tr_normalize U) (filter (\<lambda>p. p \<noteq> []) (map strip (split_each [] raw)))"

text \<open>The input \<^verbatim>\<open>"elma, elma a\<dots>ac\<dots>; elma"\<close> of the example, with U+011F and U+0131.\<close>

definition elma_input :: ustr where
  "elma_input = [0x65, 0x6C, 0x6D, 0x61, 0x2C, 0x20, 0x65, 0x6C, 0x6D, 0x61, 0x20, 0x61, 0x11F,
                 0x61, 0x63, 0x131, 0x3B, 0x20, 0x65, 0x6C, 0x6D, 0x61]"

text \<open>A database with one word and its one translation "elma".\<close>

definition db_elma :: database where
  "db_elma =
     \<lparr>word_rows = [1 \<mapsto> \<lparr>german = ustr_of ''der Apfel'', example = None, notes' = None,
                          box = 1, correct_count = 0, wrong_count = 0, created_at = 0,
                          updated_at = 0, last_seen_at = None, next_due_at = 0\<rparr>],
      tr_rows = [\<lparr>tr_id = 1, tr_word_id = 1, turkish = ustr_of ''elma'', tr_created_at = 0\<rparr>],
      tr_seq = 1\<rparr>"

text \<open>The pairs (word, text) of the stored rows, which the unique index keeps distinct.\<close>

definition stored_keys :: "database \<Rightarrow> (int \<times> ustr) list" where
  "stored_keys db = map (\<lambda>r. (tr_word_id r, turkish r)) (tr_rows db)"

section \<open>The review session: \<^verbatim>\<open>play_question\<close>\<close>

text \<open>
  The feedback record \<^verbatim>\<open>{"kind": ..., "msg": ...}\<close>. The message is a formatted string;
  the model keeps the values that are formatted into it. \<open>Pass\<close> is the feedback of a
  skipped question (the correct list and the new box), \<open>Correct\<close> that of an accepted
  answer (the similarity that is shown unless the match is exact, the correct list, the
  new box), \<open>Wrong\<close> that of a rejected answer (the answer, the correct list, the new box
  and the best similarity).
\<close>

datatype feedback =
    Pass "ustr list" int
  | Correct "rat option" "ustr list" int
  | Wrong ustr "ustr list" int rat

fun kind :: "feedback \<Rightarrow> string" where
  "kind (Pass correct_list new_box) = ''warn''"
| "kind (Correct extra correct_list new_box) = ''ok''"
| "kind (Wrong user_answer correct_list new_box best_sim) = ''bad''"

text \<open>The dictionary \<^verbatim>\<open>session["game"]\<close> and the session.\<close>

record game =
  g_mode :: string
  g_pool :: string
  g_queue :: "int list"
  g_idx :: nat
  g_score :: nat
  g_total :: nat
  g_last_feedback :: "feedback option"

record session =
  sess_game :: "game option"
  sess_game_tr_pick :: "ustr option"

record app =
  app_db :: database
  app_session :: session

text \<open>\<^verbatim>\<open>get_current_word\<close>: the row of the word at the current position, with its id.\<close>

definition get_current_word :: "app \<Rightarrow> (int \<times> word) option" where
  "get_current_word st =
     (case sess_game (app_session st) of
        None \<Rightarrow> None
      | Some g \<Rightarrow>
          if length (g_queue g) \<le> g_idx g then None
          else let word_id = g_queue g ! g_idx g
               in case word_rows (app_db st) word_id of
                    None \<Rightarrow> None
                  | Some w \<Rightarrow> Some (word_id, w))"

text \<open>\<^verbatim>\<open>advance_game\<close>\<close>

definition advance_game :: "session \<Rightarrow> bool \<Rightarrow> session" where
  "advance_game s was_correct =
     (case sess_game s of
        None \<Rightarrow> s
      | Some g \<Rightarrow>
          s\<lparr>sess_game :=
               Some (g\<lparr>g_score := (if was_correct then g_score g + 1 else g_score g),
                       g_idx := g_idx g + 1\<rparr>)\<rparr>)"

text \<open>
  The grading loop of \<^verbatim>\<open>play_question\<close> over the candidates. The state is
  \<open>(best_sim, matched, best_target)\<close>; the loop ends at the first accepted candidate
  (\<^verbatim>\<open>break\<close>).
\<close>

fun grade_loop ::
  "ucd \<Rightarrow> ustr \<Rightarrow> string \<Rightarrow> ustr list \<Rightarrow> rat \<times> bool \<times> ustr option
     \<Rightarrow> rat \<times> bool \<times> ustr option" where
  "grade_loop U user_answer answer_lang [] st = st"
| "grade_loop U user_answer answer_lang (target # rest) (best_sim, matched, best_target) =
     (case is_close_enough U user_answer target answer_lang of
        (ok, sim) \<Rightarrow>
          let (best_sim, best_target) =
                (if best_sim < sim then (sim, Some target) else (best_sim, best_target))
          in if ok then (best_sim, True, best_target)
             else grade_loop U user_answer answer_lang rest (best_sim, matched, best_target))"

text \<open>
  The flag \<^verbatim>\<open>exact\<close> of \<^verbatim>\<open>play_question\<close>; \<^verbatim>\<open>best_target or ""\<close> is the empty string
  when there is no best target.
\<close>

definition exact_flag :: "ucd \<Rightarrow> string \<Rightarrow> ustr \<Rightarrow> ustr option \<Rightarrow> bool" where
  "exact_flag U answer_lang user_answer best_target =
     (let bt = (case best_target of None \<Rightarrow> [] | Some t \<Rightarrow> t)
      in (answer_lang = ''de'' \<and> de_normalize U user_answer = de_normalize U bt)
         \<or> (answer_lang = ''tr'' \<and> tr_normalize U user_answer = tr_normalize U bt))"

text \<open>
  \<^verbatim>\<open>play_question\<close>. The request is \<open>GET\<close> or \<open>POST\<close> with the form field
  \<^verbatim>\<open>answer\<close> (absent: \<open>None\<close>). The two random choices are arguments: \<open>rnd_de_tr\<close>
  tells whether the mixed mode picked \<^verbatim>\<open>"de->tr"\<close>, and \<open>rnd_pick\<close> selects the
  translation shown as prompt. The response is a redirect or the page with its
  arguments. Flash messages and the HTML text are not modelled.
\<close>

datatype http_method = GET | POST "ustr option"

datatype prompt = Prompt_de ustr | Prompt_tr ustr

datatype response =
    Redirect string
  | Page prompt "feedback option" "ustr option" "ustr option"

definition no_translation_text :: ustr where
  "no_translation_text =
     [0x28, 0x54, 0xFC, 0x72, 0x6B, 0xE7, 0x65, 0x20, 0x6B, 0x61, 0x72, 0x15F, 0x131, 0x6C,
      0x131, 0x6B, 0x20, 0x79, 0x6F, 0x6B, 0x29]"

text \<open>
  Lines 794 to 812 of \<^verbatim>\<open>play_question\<close>: the direction of the question, the prompt, the
  list of correct answers, the language of the answer, and the session after
  \<^verbatim>\<open>session["game_tr_pick"]\<close> has been written (in the direction \<^verbatim>\<open>"tr->de"\<close> only).
\<close>

definition question_setup ::
  "bool \<Rightarrow> nat \<Rightarrow> app \<Rightarrow> game \<Rightarrow> int \<Rightarrow> word \<Rightarrow> prompt \<times> ustr list \<times> string \<times> session" where
  "question_setup rnd_de_tr rnd_pick st g word_id w =
     (let mode = (if g_mode g = ''mixed''
                  then (if rnd_de_tr then ''de->tr'' else ''tr->de'') else g_mode g);
          trs = get_translations (app_db st) word_id
      in if mode = ''de->tr''
         then (Prompt_de (german w), trs, ''tr'', app_session st)
         else let tr_pick = (if trs \<noteq> [] then trs ! (rnd_pick mod length trs)
                             else no_translation_text)
              in (Prompt_tr tr_pick, [german w], ''de'',
                  (app_session st)\<lparr>sess_game_tr_pick := Some tr_pick\<rparr>))"

definition play_question ::
  "ucd \<Rightarrow> bool \<Rightarrow> nat \<Rightarrow> clock \<Rightarrow> clock \<Rightarrow> http_method \<Rightarrow> app \<Rightarrow> response \<times> app" where
  "play_question U rnd_de_tr rnd_pick clk_ts clk_due method st =
     (case sess_game (app_session st) of
        None \<Rightarrow> (Redirect ''play_setup'', st)
      | Some g \<Rightarrow>
     (case get_current_word st of
        None \<Rightarrow> (Redirect ''play_done'', st)
      | Some (word_id, w) \<Rightarrow>
     (case question_setup rnd_de_tr rnd_pick st g word_id w of
        (prompt, correct_list, answer_lang, s1) \<Rightarrow>
     (case method of
        GET \<Rightarrow> (Page prompt (g_last_feedback g) (example w) (notes' w),
                 st\<lparr>app_session := s1\<rparr>)
      | POST answer \<Rightarrow>
     (let user_answer = strip (case answer of None \<Rightarrow> [] | Some a \<Rightarrow> a)
      in if user_answer = [] then
           (case update_after_answer clk_ts clk_due (word_rows (app_db st)) word_id False (box w) of
              ((new_box, due), rows) \<Rightarrow>
                (Redirect ''play_question'',
                 \<lparr>app_db = (app_db st)\<lparr>word_rows := rows\<rparr>,
                  app_session =
                    advance_game
                      (s1\<lparr>sess_game := Some (g\<lparr>g_last_feedback :=
                                                   Some (Pass correct_list new_box)\<rparr>)\<rparr>)
                      False\<rparr>))
         else
           (case grade_loop U user_answer answer_lang correct_list (0, False, None) of
              (best_sim, matched, best_target) \<Rightarrow>
                if matched then
                  (case update_after_answer clk_ts clk_due (word_rows (app_db st)) word_id True
                          (box w) of
                     ((new_box, due), rows) \<Rightarrow>
                       (let exact = exact_flag U answer_lang user_answer best_target;
                            extra = (if exact then None else Some best_sim)
                        in (Redirect ''play_question'',
                            \<lparr>app_db = (app_db st)\<lparr>word_rows := rows\<rparr>,
                             app_session =
                               advance_game
                                 (s1\<lparr>sess_game := Some (g\<lparr>g_last_feedback :=
                                     Some (Correct extra correct_list new_box)\<rparr>)\<rparr>)
                                 True\<rparr>)))
                else
                  (case update_after_answer clk_ts clk_due (word_rows (app_db st)) word_id False
                          (box w) of
                     ((new_box, due), rows) \<Rightarrow>
                       (Redirect ''play_question'',
                        \<lparr>app_db = (app_db st)\<lparr>word_rows := rows\<rparr>,
                         app_session =
                           advance_game
                             (s1\<lparr>sess_game := Some (g\<lparr>g_last_feedback :=
                                 Some (Wrong user_answer correct_list new_box best_sim)\<rparr>)\<rparr>)
                             False\<rparr>))))))))"

text \<open>A session on the database \<open>db_elma\<close>, and a word row, for running the model.\<close>

definition app_elma :: app where
  "app_elma =
     \<lparr>app_db = db_elma,
      app_session =
        \<lparr>sess_game = Some \<lparr>g_mode = ''de->tr'', g_pool = ''due'', g_queue = [1], g_idx = 0,
                            g_score = 0, g_total = 1, g_last_feedback = None\<rparr>,
         sess_game_tr_pick = None\<rparr>\<rparr>"

definition word_apfel :: word where
  "word_apfel = \<lparr>german = ustr_of ''der Apfel'', example = None, notes' = None,
                  box = 1, correct_count = 0, wrong_count = 0, created_at = 0,
                  updated_at = 0, last_seen_at = None, next_due_at = 0\<rparr>"

section \<open>Properties of the scheduler\<close>

lemma add_days_iso_now:
  "add_days_iso clk days = now_utc_iso clk + days * sec_per_day"
  by (simp add: add_days_iso_def now_utc_iso_def usec_per_sec_def)

lemma LEITNER_dom: "dom LEITNER_INTERVALS_DAYS = {1, 2, 3, 4, 5}"
  by (auto simp: LEITNER_INTERVALS_DAYS_def split: if_splits)

text \<open>
  Claim C1. For every box \<open>b\<close> in \<open>{1,...,5}\<close> and every verdict, the update sets the new
  box to \<open>min 5 (b + 1)\<close> on a correct answer and to \<open>1\<close> on an incorrect one; the new
  box has an entry in the interval table \<open>{1:0, 2:1, 3:3, 4:7, 5:14}\<close>, and the next-due
  timestamp is the current time plus that many days. Both values are returned and
  written to the row of the word.
\<close>

theorem update_after_answer_box_and_due:
  assumes "b \<in> {1, 2, 3, 4, 5}"
  shows "\<exists>new_box days db'.
           update_after_answer clk_ts clk_due db wid ok b
             = ((new_box, now_utc_iso clk_due + days * sec_per_day), db')
         \<and> new_box = (if ok then min 5 (b + 1) else 1)
         \<and> [1 \<mapsto> 0, 2 \<mapsto> 1, 3 \<mapsto> 3, 4 \<mapsto> 7, 5 \<mapsto> (14::int)] new_box = Some days
         \<and> (\<forall>w. db wid = Some w \<longrightarrow>
               (\<exists>w'. db' wid = Some w' \<and> box w' = new_box
                     \<and> next_due_at w' = now_utc_iso clk_due + days * sec_per_day))"
  using assms
  by (auto simp: update_after_answer_def schedule_next_def add_days_iso_now
                 LEITNER_INTERVALS_DAYS_def Let_def)

theorem update_after_answer_box_and_due_witness:
  "update_after_answer 1700000000123456 1700000000654321
       [7 \<mapsto> \<lparr>german = [], example = None, notes' = None, box = 3, correct_count = 0,
              wrong_count = 0, created_at = 0, updated_at = 0, last_seen_at = None,
              next_due_at = 0\<rparr>] 7 True 3
     = ((4, 1700000000 + 7 * 86400),
        [7 \<mapsto> \<lparr>german = [], example = None, notes' = None, box = 4, correct_count = 1,
              wrong_count = 0, created_at = 0, updated_at = 1700000000,
              last_seen_at = Some 1700000000, next_due_at = 1700000000 + 7 * 86400\<rparr>])"
  using update_after_answer_box_and_due [of 3 1700000000123456 1700000000654321
      "[7 \<mapsto> \<lparr>german = [], example = None, notes' = None, box = 3, correct_count = 0,
              wrong_count = 0, created_at = 0, updated_at = 0, last_seen_at = None,
              next_due_at = 0\<rparr>]" 7 True]
  by (simp add: update_after_answer_def schedule_next_def add_days_iso_def now_utc_iso_def
                LEITNER_INTERVALS_DAYS_def usec_per_sec_def sec_per_day_def Let_def)

text \<open>
  Claim C10. Computing the next-due timestamp is total over all integer boxes: for a box
  outside \<open>{1,...,5}\<close> the lookup falls back to 0 days, so the timestamp is the current
  time (due immediately). The function has no failing branch.
\<close>

theorem schedule_next_total_fallback:
  assumes "bx \<notin> {1, 2, 3, 4, 5}"
  shows "LEITNER_INTERVALS_DAYS bx = None \<and> schedule_next clk bx = now_utc_iso clk"
  using assms LEITNER_dom
  by (auto simp: schedule_next_def add_days_iso_now domIff)

theorem schedule_next_total_fallback_witness:
  "(9::int) \<notin> {1, 2, 3, 4, 5} \<and> schedule_next 1700000000123456 9 = 1700000000
   \<and> schedule_next 1700000000123456 (- 2) = 1700000000"
  using schedule_next_total_fallback [of 9 1700000000123456]
        schedule_next_total_fallback [of "- 2" 1700000000123456]
  by (simp add: now_utc_iso_def usec_per_sec_def)

section \<open>Properties of the grading of one candidate\<close>

lemmas norm_eval = tr_normalize_def de_normalize_def strip_def isspace_def lower_def
  lower_ucs4_def to_lower_full_def ascii_lower_def replace1_def Let_def

lemma ustr_zu: "ustr_of ''zu'' = [0x7A, 0x75]"
  and ustr_du: "ustr_of ''du'' = [0x64, 0x75]"
  and ustr_gehn: "ustr_of ''gehn'' = [0x67, 0x65, 0x68, 0x6E]"
  and ustr_gehen: "ustr_of ''gehen'' = [0x67, 0x65, 0x68, 0x65, 0x6E]"
  by (simp_all add: ustr_of_def)

lemma tr_normalize_zu: "tr_normalize U [0x7A, 0x75] = [0x7A, 0x75]"
  and tr_normalize_du: "tr_normalize U [0x64, 0x75] = [0x64, 0x75]"
  by (simp_all add: norm_eval)

lemma de_normalize_gehn: "de_normalize U [0x67, 0x65, 0x68, 0x6E] = [0x67, 0x65, 0x68, 0x6E]"
  and de_normalize_gehen:
    "de_normalize U [0x67, 0x65, 0x68, 0x65, 0x6E] = [0x67, 0x65, 0x68, 0x65, 0x6E]"
  by (simp_all add: norm_eval ustr_of_def)

lemma similarity_zu_du: "similarity [0x7A, 0x75] [0x64, 0x75 :: nat] = 1 / 2"
  by code_simp

lemma similarity_gehn_gehen:
  "similarity [0x67, 0x65, 0x68, 0x6E] [0x67, 0x65, 0x68, 0x65, 0x6E :: nat] = 8 / 9"
  by code_simp

lemma is_close_enough_cases:
  "is_close_enough U user correct lang =
     (let u = normalize U lang user; c = normalize U lang correct
      in if u = [] \<or> c = [] then (False, 0)
         else if u = c then (True, 1)
         else if length u \<le> 3 \<or> length c \<le> 3 then (False, similarity u c)
         else (FUZZY_THRESHOLD \<le> similarity u c, similarity u c))"
  by (simp add: is_close_enough_def normalize_def Let_def)

text \<open>
  Claim C2. For a user answer and a candidate whose normalised forms \<open>u\<close> and \<open>c\<close> are
  unequal and both longer than 3, the candidate is accepted if and only if
  \<open>similarity u c\<close> is at least 0.88 (so a similarity of 0.87 does not accept), and the
  reported confidence is that similarity. Example: the answer "gehn" against the target
  "gehen" in the source language is accepted with confidence 8/9, and the two normalised
  forms differ (the match is not exact).
\<close>

theorem is_close_enough_fuzzy:
  assumes "u = normalize U lang user" and "c = normalize U lang correct"
    and "u \<noteq> c" and "3 < length u" and "3 < length c"
  shows "is_close_enough U user correct lang = (88 / 100 \<le> similarity u c, similarity u c)
       \<and> (similarity u c = 87 / 100 \<longrightarrow> \<not> fst (is_close_enough U user correct lang))
       \<and> is_close_enough U' (ustr_of ''gehn'') (ustr_of ''gehen'') ''de'' = (True, 8 / 9)
       \<and> de_normalize U' (ustr_of ''gehn'') \<noteq> de_normalize U' (ustr_of ''gehen'')"
proof -
  have ne: "u \<noteq> []" "c \<noteq> []" using assms(4,5) by auto
  have gen: "is_close_enough U user correct lang = (88 / 100 \<le> similarity u c, similarity u c)"
    using assms ne by (auto simp: is_close_enough_cases Let_def FUZZY_THRESHOLD_def)
  have ex: "is_close_enough U' (ustr_of ''gehn'') (ustr_of ''gehen'') ''de'' = (True, 8 / 9)"
    by (simp add: is_close_enough_cases normalize_def ustr_gehn ustr_gehen de_normalize_gehn
                  de_normalize_gehen similarity_gehn_gehen FUZZY_THRESHOLD_def)
  have ex2: "de_normalize U' (ustr_of ''gehn'') \<noteq> de_normalize U' (ustr_of ''gehen'')"
    by (simp add: ustr_gehn ustr_gehen de_normalize_gehn de_normalize_gehen)
  show ?thesis unfolding gen using ex ex2 by simp
qed

theorem is_close_enough_fuzzy_witness:
  "is_close_enough ucd_excerpt (ustr_of ''gehn'') (ustr_of ''gehen'') ''de''
     = ((88 / 100 :: rat) \<le> 8 / 9, 8 / 9)"
proof -
  have gehn: "[0x67, 0x65, 0x68, 0x6E] = normalize ucd_excerpt ''de'' (ustr_of ''gehn'')"
    and gehen: "[0x67, 0x65, 0x68, 0x65, 0x6E] = normalize ucd_excerpt ''de'' (ustr_of ''gehen'')"
    by (simp_all add: normalize_def ustr_gehn ustr_gehen de_normalize_gehn de_normalize_gehen)
  have "is_close_enough ucd_excerpt (ustr_of ''gehn'') (ustr_of ''gehen'') ''de''
          = (88 / 100 \<le> similarity [0x67, 0x65, 0x68, 0x6E] [0x67, 0x65, 0x68, 0x65, 0x6E :: nat],
             similarity [0x67, 0x65, 0x68, 0x6E] [0x67, 0x65, 0x68, 0x65, 0x6E :: nat])"
    using is_close_enough_fuzzy [OF gehn gehen, of ucd_excerpt] by simp
  then show ?thesis by (simp add: similarity_gehn_gehen)
qed

text \<open>
  Claim C3. For a user answer and a candidate of which either normalised form has length
  at most 3, and neither is empty, the candidate is accepted if and only if the two
  normalised forms are equal, then with confidence 1; otherwise it is rejected and the
  similarity of the pair is still returned. Example: "zu" against "du" in the target
  language is rejected.
\<close>

theorem is_close_enough_short:
  assumes "u = normalize U lang user" and "c = normalize U lang correct"
    and "u \<noteq> []" and "c \<noteq> []" and "length u \<le> 3 \<or> length c \<le> 3"
  shows "is_close_enough U user correct lang
           = (if u = c then (True, 1) else (False, similarity u c))
       \<and> is_close_enough U' (ustr_of ''zu'') (ustr_of ''du'') ''tr'' = (False, 1 / 2)"
proof -
  have gen: "is_close_enough U user correct lang
               = (if u = c then (True, 1) else (False, similarity u c))"
    using assms by (auto simp: is_close_enough_cases Let_def)
  have ex: "is_close_enough U' (ustr_of ''zu'') (ustr_of ''du'') ''tr'' = (False, 1 / 2)"
    by (simp add: is_close_enough_cases normalize_def ustr_zu ustr_du tr_normalize_zu
                  tr_normalize_du similarity_zu_du)
  show ?thesis unfolding gen using ex by simp
qed

theorem is_close_enough_short_witness:
  "is_close_enough ucd_excerpt (ustr_of ''zu'') (ustr_of ''du'') ''tr'' = (False, 1 / 2)
   \<and> is_close_enough ucd_excerpt (ustr_of ''du'') (ustr_of ''du'') ''tr'' = (True, 1)"
proof -
  have zu: "[0x7A, 0x75] = normalize ucd_excerpt ''tr'' (ustr_of ''zu'')"
    and du: "[0x64, 0x75] = normalize ucd_excerpt ''tr'' (ustr_of ''du'')"
    by (simp_all add: normalize_def ustr_zu ustr_du tr_normalize_zu tr_normalize_du)
  have 1: "is_close_enough ucd_excerpt (ustr_of ''zu'') (ustr_of ''du'') ''tr''
             = (False, similarity [0x7A, 0x75] [0x64, 0x75 :: nat])"
    using is_close_enough_short [OF zu du, of ucd_excerpt] by simp
  have 2: "is_close_enough ucd_excerpt (ustr_of ''du'') (ustr_of ''du'') ''tr'' = (True, 1)"
    using is_close_enough_short [OF du du, of ucd_excerpt] by simp
  show ?thesis using 1 2 by (simp add: similarity_zu_du)
qed

section \<open>Properties of the parsing of translations\<close>

lemma strip_Nil: "strip [] = []" by (simp add: strip_def)

lemma split_each_skip_seps:
  "filter (\<lambda>p. p \<noteq> []) (map strip (split_each [] (dropWhile is_sep cs)))
     = filter (\<lambda>p. p \<noteq> []) (map strip (split_each [] cs))"
  by (induction cs) (simp_all add: strip_Nil)

lemma re_split_from_split_each:
  "filter (\<lambda>p. p \<noteq> []) (map strip (re_split_from piece s))
     = filter (\<lambda>p. p \<noteq> []) (map strip (split_each piece s))"
proof (induction piece s rule: re_split_from.induct)
  case (1 piece)
  show ?case by simp
next
  case (2 piece c cs)
  show ?case
  proof (cases "is_sep c")
    case True
    with 2 show ?thesis by (simp add: split_each_skip_seps)
  next
    case False
    with 2 show ?thesis by simp
  qed
qed

lemma uniq_loop_dedup:
  "uniq_loop U out seen uniq
     = uniq @ dedup_first (tr_normalize U) (filter (\<lambda>t. tr_normalize U t \<notin> seen) out)"
proof (induction out arbitrary: seen uniq)
  case Nil
  show ?case by simp
next
  case (Cons t ts)
  have f: "filter (\<lambda>y. tr_normalize U y \<noteq> tr_normalize U t)
             (filter (\<lambda>t. tr_normalize U t \<notin> seen) ts)
           = filter (\<lambda>y. tr_normalize U y \<notin> insert (tr_normalize U t) seen) ts"
    by (simp add: conj_commute)
  show ?case
  proof (cases "tr_normalize U t \<in> seen")
    case True
    then show ?thesis using Cons.IH[of seen uniq] by (simp add: Let_def)
  next
    case False
    then show ?thesis using Cons.IH[of "insert (tr_normalize U t) seen" "uniq @ [t]"] f
      by (simp add: Let_def)
  qed
qed

lemma set_dedup_first: "set (dedup_first key xs) \<subseteq> set xs"
  by (induction key xs rule: dedup_first.induct) auto

lemma distinct_dedup_first: "distinct (map key (dedup_first key xs))"
proof (induction key xs rule: dedup_first.induct)
  case (1 key)
  show ?case by simp
next
  case (2 key x xs)
  have "key x \<notin> key ` set (dedup_first key (filter (\<lambda>y. key y \<noteq> key x) xs))"
    using set_dedup_first[of key "filter (\<lambda>y. key y \<noteq> key x) xs"] by auto
  with 2 show ?case by simp
qed

lemma parse_translations_spec: "parse_translations U raw = spec_parse U raw"
  by (simp add: parse_translations_def spec_parse_def re_split_def uniq_loop_dedup
                re_split_from_split_each)

lemma re_split_elma:
  "re_split elma_input
     = [[0x65, 0x6C, 0x6D, 0x61],
        [0x20, 0x65, 0x6C, 0x6D, 0x61, 0x20, 0x61, 0x11F, 0x61, 0x63, 0x131],
        [0x20, 0x65, 0x6C, 0x6D, 0x61]]"
  by (simp add: re_split_def elma_input_def is_sep_def)

lemma strip_elma:
  "strip [0x65, 0x6C, 0x6D, 0x61] = [0x65, 0x6C, 0x6D, 0x61]"
  "strip [0x20, 0x65, 0x6C, 0x6D, 0x61] = [0x65, 0x6C, 0x6D, 0x61]"
  "strip [0x20, 0x65, 0x6C, 0x6D, 0x61, 0x20, 0x61, 0x11F, 0x61, 0x63, 0x131]
     = [0x65, 0x6C, 0x6D, 0x61, 0x20, 0x61, 0x11F, 0x61, 0x63, 0x131]"
  by (simp_all add: strip_def isspace_def)

lemma key_elma: "tr_normalize U [0x65, 0x6C, 0x6D, 0x61] = [0x65, 0x6C, 0x6D, 0x61]"
  by (simp add: tr_normalize_def strip_def isspace_def lower_def lower_ucs4_def
                to_lower_full_def ascii_lower_def Let_def)

lemma key_elma_agaci:
  "tr_normalize U [0x65, 0x6C, 0x6D, 0x61, 0x20, 0x61, 0x11F, 0x61, 0x63, 0x131]
     \<noteq> [0x65, 0x6C, 0x6D, 0x61]"
  by (simp add: tr_normalize_def strip_def isspace_def lower_def lower_ucs4_def
                to_lower_full_def ascii_lower_def Let_def)

lemma parse_elma:
  "parse_translations U elma_input
     = [[0x65, 0x6C, 0x6D, 0x61], [0x65, 0x6C, 0x6D, 0x61, 0x20, 0x61, 0x11F, 0x61, 0x63, 0x131]]"
  by (simp add: parse_translations_def re_split_elma strip_elma key_elma key_elma_agaci Let_def)

text \<open>
  Claim C8. Parsing a list of translations splits the input on the separators
  \<^verbatim>\<open>;\<close> \<^verbatim>\<open>,\<close> \<^verbatim>\<open>/\<close>, trims each part, drops the empty parts and removes duplicates
  case- and whitespace-insensitively, keeping the first occurrence as it was written and
  the order of the input: the code computes the specification \<open>spec_parse\<close>, and the keys
  of its result are pairwise different. The input "elma, elma a..ac..; elma" yields exactly
  the two entries "elma" and "elma a..ac.." in that order.
\<close>

theorem parse_translations_correct:
  "parse_translations U raw = spec_parse U raw
   \<and> distinct (map (tr_normalize U) (parse_translations U raw))
   \<and> parse_translations U elma_input
       = [[0x65, 0x6C, 0x6D, 0x61],
          [0x65, 0x6C, 0x6D, 0x61, 0x20, 0x61, 0x11F, 0x61, 0x63, 0x131]]"
proof (intro conjI)
  show "parse_translations U raw = spec_parse U raw"
    by (rule parse_translations_spec)
  show "distinct (map (tr_normalize U) (parse_translations U raw))"
    unfolding parse_translations_spec spec_parse_def by (rule distinct_dedup_first)
  show "parse_translations U elma_input
          = [[0x65, 0x6C, 0x6D, 0x61],
             [0x65, 0x6C, 0x6D, 0x61, 0x20, 0x61, 0x11F, 0x61, 0x63, 0x131]]"
    by (rule parse_elma)
qed

theorem parse_translations_correct_witness:
  "parse_translations ucd_excerpt elma_input = spec_parse ucd_excerpt elma_input
   \<and> spec_parse ucd_excerpt elma_input
       = [[0x65, 0x6C, 0x6D, 0x61],
          [0x65, 0x6C, 0x6D, 0x61, 0x20, 0x61, 0x11F, 0x61, 0x63, 0x131]]"
  using parse_translations_correct [of ucd_excerpt elma_input] by auto

section \<open>Properties of the stored translations\<close>

lemma ustr_elma: "ustr_of ''elma'' = [0x65, 0x6C, 0x6D, 0x61]"
  and ustr_Elma: "ustr_of ''Elma'' = [0x45, 0x6C, 0x6D, 0x61]"
  by (simp_all add: ustr_of_def)

lemma key_Elma: "tr_normalize U [0x45, 0x6C, 0x6D, 0x61] = [0x65, 0x6C, 0x6D, 0x61]"
  by (simp add: tr_normalize_def strip_def isspace_def lower_def lower_ucs4_def
                to_lower_full_def ascii_lower_def Let_def)

lemma parse_Elma: "parse_translations U [0x45, 0x6C, 0x6D, 0x61] = [[0x45, 0x6C, 0x6D, 0x61]]"
  by (simp add: parse_translations_def re_split_def is_sep_def strip_def isspace_def Let_def)

lemma parse_elma_single: "parse_translations U [0x65, 0x6C, 0x6D, 0x61] = [[0x65, 0x6C, 0x6D, 0x61]]"
  by (simp add: parse_translations_def re_split_def is_sep_def strip_def isspace_def Let_def)

text \<open>
  Claim C7 as stated fails: a translation that differs from a stored one only in case
  has the same normalised text, and is stored all the same, because the unique index
  compares the text as it is written. Here "Elma" is added to a word that has "elma".
\<close>

theorem add_translation_case_variant_counterexample:
  "tr_normalize ucd_excerpt (ustr_of ''Elma'') = tr_normalize ucd_excerpt (ustr_of ''elma'')
   \<and> map turkish (tr_rows db_elma) = [ustr_of ''elma'']
   \<and> map turkish (tr_rows (add_translation ucd_excerpt 0 db_elma 1 (ustr_of ''Elma'')))
       = [ustr_of ''elma'', ustr_of ''Elma'']"
  by (simp add: ustr_elma ustr_Elma key_Elma key_elma parse_Elma add_translation_def
                insert_translation_def db_elma_def)

lemma insert_translation_keys:
  "insert_translation db wid t ts = Inr db' \<Longrightarrow>
     stored_keys db' = stored_keys db @ [(wid, t)] \<and> (wid, t) \<notin> set (stored_keys db)"
  by (auto simp: insert_translation_def stored_keys_def split: if_splits)

lemma insert_all_distinct:
  "distinct (stored_keys db) \<Longrightarrow> distinct (stored_keys (insert_all db wid ts trs))"
proof (induction trs arbitrary: db)
  case Nil
  then show ?case by simp
next
  case (Cons t trs)
  show ?case
  proof (cases "insert_translation db wid t ts")
    case (Inl e)
    then show ?thesis using Cons by (cases e) simp
  next
    case (Inr db')
    from insert_translation_keys[OF Inr] Cons.prems have "distinct (stored_keys db')" by simp
    from Cons.IH[OF this] Inr show ?thesis by simp
  qed
qed

lemma insert_all_stored:
  "\<forall>t \<in> set trs. \<exists>r \<in> set (tr_rows db). tr_word_id r = wid \<and> turkish r = t \<Longrightarrow>
     insert_all db wid ts trs = db"
  by (induction trs) (auto simp: insert_translation_def)

text \<open>
  Claim C7, amended. For every item the stored translations stay unique by their exact
  text: adding translations keeps the pairs (word, text) distinct, and adding an input
  all of whose parsed (trimmed) translations are already stored for that word with
  exactly the same text leaves the database unchanged. No error is raised: the result is
  always a database.
\<close>

theorem add_translation_exact_duplicate:
  "(distinct (stored_keys db) \<longrightarrow> distinct (stored_keys (add_translation U clk db wid raw)))
   \<and> ((\<forall>t \<in> set (parse_translations U raw).
          \<exists>r \<in> set (tr_rows db). tr_word_id r = wid \<and> turkish r = t)
        \<longrightarrow> add_translation U clk db wid raw = db)"
  by (auto simp: add_translation_def Let_def insert_all_distinct insert_all_stored)

theorem add_translation_exact_duplicate_witness:
  "distinct (stored_keys db_elma)
   \<and> parse_translations ucd_excerpt (ustr_of ''elma'') = [ustr_of ''elma'']
   \<and> add_translation ucd_excerpt 0 db_elma 1 (ustr_of ''elma'') = db_elma"
proof -
  have d: "distinct (stored_keys db_elma)" by (simp add: stored_keys_def db_elma_def)
  have p: "parse_translations ucd_excerpt (ustr_of ''elma'') = [ustr_of ''elma'']"
    by (simp add: ustr_elma parse_elma_single)
  have s: "\<forall>t \<in> set (parse_translations ucd_excerpt (ustr_of ''elma'')).
             \<exists>r \<in> set (tr_rows db_elma). tr_word_id r = 1 \<and> turkish r = t"
    by (simp add: p db_elma_def)
  from add_translation_exact_duplicate [of db_elma ucd_excerpt 0 1 "ustr_of ''elma''"] s
  have "add_translation ucd_excerpt 0 db_elma 1 (ustr_of ''elma'') = db_elma" by blast
  with d p show ?thesis by simp
qed

section \<open>Properties of the review session\<close>

lemma get_current_word_row:
  "get_current_word st = Some (wid, w) \<Longrightarrow> word_rows (app_db st) wid = Some w"
  by (auto simp: get_current_word_def Let_def split: option.splits if_splits)

lemma schedule_next_1: "schedule_next clk 1 = now_utc_iso clk"
  by (simp add: schedule_next_def LEITNER_INTERVALS_DAYS_def add_days_iso_now)

lemma update_after_answer_wrong:
  "rows wid = Some w \<Longrightarrow>
   update_after_answer clk_ts clk_due rows wid False b =
     ((1, now_utc_iso clk_due),
      rows(wid \<mapsto> w\<lparr>box := 1, wrong_count := wrong_count w + 1,
                        updated_at := now_utc_iso clk_ts,
                        last_seen_at := Some (now_utc_iso clk_ts),
                        next_due_at := now_utc_iso clk_due\<rparr>))"
  by (simp add: update_after_answer_def schedule_next_1 Let_def)

text \<open>
  Claim C9. Submitting an answer that is empty after trimming is a pass, for every
  current item and every list of candidates, empty or not: the response is the redirect
  to the next question (no error), the word is stored with box 1, its wrong counter
  incremented and due now, the position advances and the score stays, and the feedback is
  of kind "warn" (a pass, not "bad") and carries no similarity. The grader is not
  consulted: the outcome is the same for every Unicode table, the only parameter of the
  grader.
\<close>

theorem play_question_empty_answer:
  assumes g: "sess_game (app_session st) = Some g"
    and w: "get_current_word st = Some (wid, w)"
    and e: "strip (case answer of None \<Rightarrow> [] | Some a \<Rightarrow> a) = []"
    and q: "question_setup rnd_de_tr rnd_pick st g wid w = (prompt, correct_list, answer_lang, s1)"
  shows "play_question U rnd_de_tr rnd_pick clk_ts clk_due (POST answer) st =
       (Redirect ''play_question'',
        \<lparr>app_db = (app_db st)\<lparr>word_rows := (word_rows (app_db st))
             (wid \<mapsto> w\<lparr>box := 1, wrong_count := wrong_count w + 1,
                          updated_at := now_utc_iso clk_ts,
                          last_seen_at := Some (now_utc_iso clk_ts),
                          next_due_at := now_utc_iso clk_due\<rparr>)\<rparr>,
         app_session = s1\<lparr>sess_game := Some (g\<lparr>g_last_feedback := Some (Pass correct_list 1),
                                                 g_idx := g_idx g + 1\<rparr>)\<rparr>\<rparr>)
     \<and> kind (Pass correct_list 1) = ''warn''
     \<and> play_question U' rnd_de_tr rnd_pick clk_ts clk_due (POST answer) st
         = play_question U rnd_de_tr rnd_pick clk_ts clk_due (POST answer) st"
proof -
  have r: "update_after_answer clk_ts clk_due (word_rows (app_db st)) wid False (box w) =
     ((1, now_utc_iso clk_due),
      (word_rows (app_db st))(wid \<mapsto> w\<lparr>box := 1, wrong_count := wrong_count w + 1,
                        updated_at := now_utc_iso clk_ts,
                        last_seen_at := Some (now_utc_iso clk_ts),
                        next_due_at := now_utc_iso clk_due\<rparr>))"
    using get_current_word_row[OF w] by (rule update_after_answer_wrong)
  show ?thesis
    unfolding play_question_def
    by (simp add: g w e q r Let_def advance_game_def)
qed

theorem play_question_empty_answer_witness:
  "fst (play_question ucd_excerpt True 0 1700000000123456 1700000000654321
          (POST (Some [0x20, 0x9])) (app_elma\<lparr>app_db := db_elma\<lparr>word_rows := [1 \<mapsto> word_apfel\<lparr>box := 4\<rparr>]\<rparr>\<rparr>))
     = Redirect ''play_question''
   \<and> map_option box (word_rows (app_db (snd (play_question ucd_excerpt True 0 1700000000123456
          1700000000654321 (POST (Some [0x20, 0x9]))
          (app_elma\<lparr>app_db := db_elma\<lparr>word_rows := [1 \<mapsto> word_apfel\<lparr>box := 4\<rparr>]\<rparr>\<rparr>)))) 1) = Some 1
   \<and> map_option g_last_feedback (sess_game (app_session (snd (play_question ucd_excerpt True 0
          1700000000123456 1700000000654321 (POST (Some [0x20, 0x9]))
          (app_elma\<lparr>app_db := db_elma\<lparr>word_rows := [1 \<mapsto> word_apfel\<lparr>box := 4\<rparr>]\<rparr>\<rparr>)))))
       = Some (Some (Pass [ustr_of ''elma''] 1))"
proof -
  let ?st = "app_elma\<lparr>app_db := db_elma\<lparr>word_rows := [1 \<mapsto> word_apfel\<lparr>box := 4\<rparr>]\<rparr>\<rparr>"
  let ?g = "\<lparr>g_mode = ''de->tr'', g_pool = ''due'', g_queue = [1], g_idx = 0,
             g_score = 0, g_total = 1, g_last_feedback = None\<rparr>"
  have g: "sess_game (app_session ?st) = Some ?g" by (simp add: app_elma_def)
  have w: "get_current_word ?st = Some (1, word_apfel\<lparr>box := 4\<rparr>)"
    by (simp add: get_current_word_def app_elma_def)
  have e: "strip (case Some [0x20, 0x9] of None \<Rightarrow> [] | Some a \<Rightarrow> a) = []"
    by (simp add: strip_def isspace_def)
  have q: "question_setup True 0 ?st ?g 1 (word_apfel\<lparr>box := 4\<rparr>)
             = (Prompt_de (ustr_of ''der Apfel''), [ustr_of ''elma''], ''tr'', app_session ?st)"
    by (simp add: question_setup_def get_translations_def app_elma_def db_elma_def word_apfel_def)
  show ?thesis
    using play_question_empty_answer [OF g w e q, of ucd_excerpt 1700000000123456 1700000000654321 ucd_excerpt]
    by simp
qed

end
